theory Spec2Isabelle
  imports Complex_Main "HOL-Library.AList" "HOL-Library.Sublist"
begin

section \<open>The expense store of the client (App component)\<close>

text \<open>
  The client keeps its expenses in React state and in \<open>localStorage\<close>. Amounts are
  JavaScript numbers, the type the interface \<open>Expense\<close> and the tool declaration
  (\<open>Type.NUMBER\<close>) give them: a finite value, \<open>Infinity\<close>, \<open>-Infinity\<close> or \<open>NaN\<close>.
  Finite values are modelled as exact rationals, so the sum of finite amounts is their
  mathematical sum (the rounding and the overflow of IEEE doubles are not modelled); sums
  with a non-finite operand follow IEEE 754. Identifiers are the millisecond readings of
  \<open>Date.now()\<close>, dates are the strings \<open>new Date().toISOString()\<close> returns. Non-ASCII
  letters of the Portuguese category names are written without their accents in the
  examples.
\<close>

datatype jsnumber = Finite rat | PosInfinity | NegInfinity | NaN

text \<open>
  The numerals and \<open>+\<close> on JavaScript numbers: \<open>25\<close> is \<open>Finite 25\<close>, and \<open>+\<close> is the
  addition of the language.
\<close>

instantiation jsnumber :: "{comm_monoid_add, one}"
begin

definition zero_jsnumber :: jsnumber where
  "zero_jsnumber = Finite 0"

definition one_jsnumber :: jsnumber where
  "one_jsnumber = Finite 1"

fun plus_jsnumber :: "jsnumber \<Rightarrow> jsnumber \<Rightarrow> jsnumber" where
  "plus_jsnumber (Finite a) (Finite b) = Finite (a + b)"
| "plus_jsnumber NaN y = NaN"
| "plus_jsnumber x NaN = NaN"
| "plus_jsnumber PosInfinity NegInfinity = NaN"
| "plus_jsnumber NegInfinity PosInfinity = NaN"
| "plus_jsnumber PosInfinity y = PosInfinity"
| "plus_jsnumber x PosInfinity = PosInfinity"
| "plus_jsnumber NegInfinity y = NegInfinity"
| "plus_jsnumber x NegInfinity = NegInfinity"

instance
proof
  fix x y z :: jsnumber
  show "x + y = y + x"
    by (cases x; cases y; simp)
  show "0 + x = x"
    by (cases x; simp add: zero_jsnumber_def)
  show "x + y + z = x + (y + z)"
    by (cases x; cases y; cases z; simp)
qed

end

instance jsnumber :: numeral ..

record Expense =
  id_e :: int
  amount :: jsnumber
  description :: string
  category_name :: string
  date :: string

subsection \<open>The object \<open>categories\<close> of \<open>updateSummary\<close>\<close>

text \<open>
  \<open>updateSummary\<close> accumulates the totals in an object literal \<open>{}\<close>, typed
  \<open>Record<string, number>\<close>. At run time that object inherits from
  \<open>Object.prototype\<close>, so reading \<open>categories[k]\<close> for a name \<open>k\<close> that is not an own
  property yields the inherited member when \<open>k\<close> names one, and \<open>undefined\<close> otherwise.
  The values such a read can produce are modelled by \<open>jsval\<close>: a number, a string that
  came out of a concatenation (its text is not modelled; it is never empty), an inherited
  function or object, or \<open>undefined\<close>.
\<close>

datatype jsval = Undefined | Num jsnumber | Str | Inherited

text \<open>The function-valued members of \<open>Object.prototype\<close>.\<close>

definition prototype_methods :: "string list" where
  "prototype_methods =
     [''constructor'', ''hasOwnProperty'', ''isPrototypeOf'', ''propertyIsEnumerable'',
      ''toLocaleString'', ''toString'', ''valueOf'', ''__defineGetter__'',
      ''__defineSetter__'', ''__lookupGetter__'', ''__lookupSetter__'']"

text \<open>
  The own enumerable properties of \<open>categories\<close>, in the order of their creation.
  (\<open>Object.entries\<close> lists names that are canonical array indices first; no statement
  below depends on the order of the entries.)
\<close>

type_synonym categories = "(string \<times> jsval) list"

text \<open>\<open>categories[k]\<close>: the own property, else what the prototype chain gives.\<close>

definition get_prop :: "categories \<Rightarrow> string \<Rightarrow> jsval" where
  "get_prop cs k =
     (case map_of cs k of
        Some v \<Rightarrow> v
      | None \<Rightarrow> if k = ''__proto__'' \<or> k \<in> set prototype_methods then Inherited else Undefined)"

text \<open>
  \<open>v || 0\<close>: \<open>undefined\<close>, the number zero and \<open>NaN\<close> are falsy, everything else here is
  truthy.
\<close>

fun or_zero :: "jsval \<Rightarrow> jsval" where
  "or_zero Undefined = Num 0"
| "or_zero (Num x) = (if x = 0 \<or> x = NaN then Num 0 else Num x)"
| "or_zero Str = Str"
| "or_zero Inherited = Inherited"

text \<open>
  \<open>v + e.amount\<close> with a number on the right: numeric addition when \<open>v\<close> is a number,
  string concatenation when \<open>v\<close> is a string, a function or an object, and \<open>NaN\<close> for
  \<open>undefined\<close> (which \<open>or_zero\<close> never returns).
\<close>

fun js_plus :: "jsval \<Rightarrow> jsnumber \<Rightarrow> jsval" where
  "js_plus (Num x) a = Num (x + a)"
| "js_plus Str a = Str"
| "js_plus Inherited a = Str"
| "js_plus Undefined a = Num NaN"

text \<open>
  \<open>categories[k] = v\<close>: creates or overwrites the own property \<open>k\<close>, except for
  \<open>__proto__\<close>, whose inherited setter ignores every value that is not an object or
  \<open>null\<close>.
\<close>

definition set_prop :: "categories \<Rightarrow> string \<Rightarrow> jsval \<Rightarrow> categories" where
  "set_prop cs k v = (if k = ''__proto__'' then cs else AList.update k v cs)"

text \<open>The body of the \<open>forEach\<close>: \<open>categories[c] = (categories[c] || 0) + e.amount\<close>.\<close>

definition add_to_category :: "categories \<Rightarrow> Expense \<Rightarrow> categories" where
  "add_to_category cs e =
     set_prop cs (category_name e) (js_plus (or_zero (get_prop cs (category_name e))) (amount e))"

subsection \<open>\<open>updateSummary\<close> and \<open>saveLocalData\<close>\<close>

record Summary =
  daily :: jsnumber
  byCategory :: "(string \<times> jsval) list"

text \<open>\<open>stamp.split('T')[0]\<close>: the text before the first \<open>T\<close>.\<close>

definition today_of :: "string \<Rightarrow> string" where
  "today_of stamp = takeWhile (\<lambda>c. c \<noteq> CHR ''T'') stamp"

text \<open>
  \<open>updateSummary\<close>; its first argument is the string \<open>new Date().toISOString()\<close> gives
  when the function runs.
\<close>

definition updateSummary :: "string \<Rightarrow> Expense list \<Rightarrow> Summary" where
  "updateSummary stamp allExpenses =
     (let today = today_of stamp;
          daily = foldl (\<lambda>sum e. sum + amount e) 0
                    (filter (\<lambda>e. prefix today (date e)) allExpenses);
          categories = foldl add_to_category [] allExpenses
      in \<lparr>daily = daily, byCategory = categories\<rparr>)"

subsection \<open>What a summary is to hold\<close>

text \<open>
  The following definitions are not part of the program. They say, in the words of the
  specification, what the buckets of a summary are to be: one bucket for every category
  name that occurs, holding the sum of the amounts of the expenses of exactly that name.
  \<open>ordinary_name\<close> singles out the names that are no member of \<open>Object.prototype\<close>.
\<close>

definition ordinary_name :: "string \<Rightarrow> bool" where
  "ordinary_name k = (k \<noteq> ''__proto__'' \<and> k \<notin> set prototype_methods)"

fun finite_number :: "jsnumber \<Rightarrow> bool" where
  "finite_number (Finite q) = True"
| "finite_number x = False"

fun number_of :: "jsval \<Rightarrow> jsnumber" where
  "number_of (Num x) = x"
| "number_of v = 0"

definition category_total :: "string \<Rightarrow> Expense list \<Rightarrow> jsnumber" where
  "category_total k es = sum_list (map amount (filter (\<lambda>e. category_name e = k) es))"

definition buckets_of :: "Expense list \<Rightarrow> string \<Rightarrow> jsval option" where
  "buckets_of es k =
     (if k \<in> set (map category_name es) then Some (Num (category_total k es)) else None)"

text \<open>
  Buckets with distinct names that all hold finite numbers, and the sum of their totals.
\<close>

definition numeric :: "categories \<Rightarrow> bool" where
  "numeric cs =
     (distinct (map fst cs)
      \<and> list_all (\<lambda>p. snd p = Num (number_of (snd p)) \<and> finite_number (number_of (snd p))) cs)"

definition total_of :: "categories \<Rightarrow> jsnumber" where
  "total_of cs = sum_list (map (\<lambda>p. number_of (snd p)) cs)"

text \<open>
  What \<open>JSON.stringify\<close> writes for one expense: the record as it is, except that an
  amount that is not finite is written as \<open>null\<close> (here \<open>None\<close>).
\<close>

record StoredExpense =
  stored_id :: int
  stored_amount :: "rat option"
  stored_description :: string
  stored_category_name :: string
  stored_date :: string

definition stringify :: "Expense \<Rightarrow> StoredExpense" where
  "stringify e =
     \<lparr>stored_id = id_e e,
      stored_amount = (case amount e of Finite q \<Rightarrow> Some q | PosInfinity \<Rightarrow> None
                       | NegInfinity \<Rightarrow> None | NaN \<Rightarrow> None),
      stored_description = description e,
      stored_category_name = category_name e,
      stored_date = date e\<rparr>"

text \<open>
  The state the component renders from: the stored item \<open>vozfinancas_expenses\<close> (absent
  until the first save) and the two React state variables.
\<close>

record app_state =
  localStorage :: "StoredExpense list option"
  expenses :: "Expense list"
  summary :: Summary

definition saveLocalData :: "string \<Rightarrow> Expense list \<Rightarrow> app_state \<Rightarrow> app_state" where
  "saveLocalData stamp newExpenses st =
     st\<lparr>localStorage := Some (map stringify newExpenses),
        expenses := newExpenses,
        summary := updateSummary stamp newExpenses\<rparr>"

text \<open>The state of a fresh installation: \<open>useState([])\<close>, \<open>useState({daily: 0, byCategory: []})\<close>.\<close>

definition initial_state :: app_state where
  "initial_state = \<lparr>localStorage = None, expenses = [], summary = \<lparr>daily = 0, byCategory = []\<rparr>\<rparr>"

section \<open>The tool-call executor (\<open>onmessage\<close>)\<close>

text \<open>
  The callbacks of a session are created once, inside \<open>startRecording\<close>. The names
  \<open>expenses\<close> and \<open>summary\<close> in \<open>onmessage\<close> are the \<open>const\<close> bindings of the render in
  which \<open>startRecording\<close> ran: \<open>setExpenses\<close> and \<open>setSummary\<close> give later renders new
  bindings and leave these as they were. A session therefore carries the two values it
  captured when it was opened.
\<close>

record closure =
  c_expenses :: "Expense list"
  c_summary :: Summary

definition capture :: "app_state \<Rightarrow> closure" where
  "capture st = \<lparr>c_expenses = expenses st, c_summary = summary st\<rparr>"

text \<open>
  A function call of the assistant. The arguments are taken at the types the tool
  declarations give them (\<open>call.args.amount as number\<close>: any JavaScript number, finite
  or not); each tool reads only its own.
\<close>

record call_args =
  arg_amount :: jsnumber
  arg_description :: string
  arg_category :: string
  arg_id :: int

record FunctionCall =
  call_name :: string
  call_id :: string
  args :: call_args

text \<open>
  The value of \<open>result\<close> when \<open>sendToolResponse\<close> runs: \<open>{status: "success", expense}\<close>,
  the expense list, \<open>{status: "success"}\<close>, the summary, or still \<open>undefined\<close>.
\<close>

datatype tool_result =
  ResultUndefined
| ResultAdded Expense
| ResultExpenses "Expense list"
| ResultSuccess
| ResultSummary Summary

record FunctionResponse =
  resp_name :: string
  resp_id :: string
  response :: tool_result

text \<open>The background requests to the server, sent and not awaited.\<close>

datatype request = POST_expenses call_args | DELETE_expenses int

text \<open>
  The three clock readings one call may take: \<open>Date.now()\<close> for the id,
  \<open>new Date().toISOString()\<close> for the date of the expense, and the reading inside
  \<open>updateSummary\<close>.
\<close>

record clock =
  date_now :: int
  iso_created :: string
  iso_summary :: string

text \<open>One iteration of the loop over \<open>message.toolCall.functionCalls\<close>, up to \<open>result\<close>.\<close>

definition execute_call ::
  "closure \<Rightarrow> clock \<Rightarrow> FunctionCall \<Rightarrow> app_state \<Rightarrow> app_state \<times> tool_result \<times> request list" where
  "execute_call cl clk call st =
     (if call_name call = ''add_expense'' then
        (let newExpense = \<lparr>id_e = date_now clk,
                            amount = arg_amount (args call),
                            description = arg_description (args call),
                            category_name = arg_category (args call),
                            date = iso_created clk\<rparr>;
             updated = c_expenses cl @ [newExpense]
         in (saveLocalData (iso_summary clk) updated st, ResultAdded newExpense,
             [POST_expenses (args call)]))
      else if call_name call = ''get_expenses'' then
        (st, ResultExpenses (c_expenses cl), [])
      else if call_name call = ''delete_expense'' then
        (let updated = filter (\<lambda>e. id_e e \<noteq> arg_id (args call)) (c_expenses cl)
         in (saveLocalData (iso_summary clk) updated st, ResultSuccess,
             [DELETE_expenses (arg_id (args call))]))
      else if call_name call = ''get_summary'' then
        (st, ResultSummary (c_summary cl), [])
      else
        (st, ResultUndefined, []))"

text \<open>
  What the session and the server have been sent, beside the state of the component.
\<close>

record world =
  app :: app_state
  sent :: "FunctionResponse list"
  fetched :: "request list"

text \<open>The whole iteration: execute, then \<open>session.sendToolResponse\<close> with the call's name and id.\<close>

definition handle_call :: "closure \<Rightarrow> clock \<times> FunctionCall \<Rightarrow> world \<Rightarrow> world" where
  "handle_call cl cc w =
     (case execute_call cl (fst cc) (snd cc) (app w) of
        (st', res, reqs) \<Rightarrow>
          \<lparr>app = st',
           sent = sent w @ [\<lparr>resp_name = call_name (snd cc), resp_id = call_id (snd cc),
                              response = res\<rparr>],
           fetched = fetched w @ reqs\<rparr>)"

text \<open>
  The tool calls a session receives, in arrival order, each with its clock readings.
  Calls of one message and of later messages run against the same closure.
\<close>

definition handle_calls :: "closure \<Rightarrow> (clock \<times> FunctionCall) list \<Rightarrow> world \<Rightarrow> world" where
  "handle_calls cl calls w = foldl (\<lambda>w cc. handle_call cl cc w) w calls"

text \<open>A session opened on the state \<open>st\<close>, with nothing sent yet.\<close>

definition session_run :: "app_state \<Rightarrow> (clock \<times> FunctionCall) list \<Rightarrow> world" where
  "session_run st calls = handle_calls (capture st) calls \<lparr>app = st, sent = [], fetched = []\<rparr>"

section \<open>Recording resources and the silence timer\<close>

text \<open>
  The refs of the component hold handles of platform objects (or \<open>null\<close>, here
  \<open>None\<close>): the four \<open>stopRecording\<close> releases, and \<open>analyserRef\<close>, which
  \<open>startRecording\<close> sets. Beside them the state records the platform: the microphone
  streams whose tracks are live, the connections of the audio graph (from node, to
  node), the timeouts that are pending (identifier and due time in milliseconds), the
  sessions that are open, whether the script processor still delivers \<open>audioprocess\<close>
  events (which ends when its outputs are disconnected), and the log of release calls.
  Timer identifiers are positive numbers, hence truthy.
\<close>

datatype release = TracksStopped nat | ProcessorDisconnected nat | TimeoutCleared nat | SessionClosed nat

record recorder =
  streamRef :: "nat option"
  processorRef :: "nat option"
  silenceTimerRef :: "nat option"
  sessionRef :: "nat option"
  analyserRef :: "nat option"
  isRecording :: bool
  status :: string
  live_streams :: "nat list"
  graph :: "(nat \<times> nat) list"
  timers :: "(nat \<times> nat) list"
  open_sessions :: "nat list"
  next_timer :: nat
  processor_on :: bool
  released :: "release list"
  silence_stops :: nat

text \<open>\<open>clearTimeout(t)\<close>: the timeout \<open>t\<close> is no longer pending.\<close>

definition clearTimeout :: "nat \<Rightarrow> recorder \<Rightarrow> recorder" where
  "clearTimeout t r = r\<lparr>timers := filter (\<lambda>x. fst x \<noteq> t) (timers r)\<rparr>"

text \<open>
  The four guarded blocks of \<open>stopRecording\<close>, in the order of the source: the tracks
  of the stream are stopped; \<open>processor.disconnect()\<close> removes the connections that
  leave the processor; the timeout is cleared; the session is closed.
\<close>

definition stop_stream :: "recorder \<Rightarrow> recorder" where
  "stop_stream r =
     (case streamRef r of
        None \<Rightarrow> r
      | Some s \<Rightarrow> r\<lparr>live_streams := removeAll s (live_streams r),
                     released := released r @ [TracksStopped s], streamRef := None\<rparr>)"

definition stop_processor :: "recorder \<Rightarrow> recorder" where
  "stop_processor r =
     (case processorRef r of
        None \<Rightarrow> r
      | Some p \<Rightarrow> r\<lparr>graph := filter (\<lambda>e. fst e \<noteq> p) (graph r),
                     released := released r @ [ProcessorDisconnected p],
                     processor_on := False, processorRef := None\<rparr>)"

definition stop_timer :: "recorder \<Rightarrow> recorder" where
  "stop_timer r =
     (case silenceTimerRef r of
        None \<Rightarrow> r
      | Some t \<Rightarrow> (clearTimeout t r)\<lparr>released := released r @ [TimeoutCleared t],
                                      silenceTimerRef := None\<rparr>)"

definition stop_session :: "recorder \<Rightarrow> recorder" where
  "stop_session r =
     (case sessionRef r of
        None \<Rightarrow> r
      | Some s \<Rightarrow> r\<lparr>open_sessions := removeAll s (open_sessions r),
                     released := released r @ [SessionClosed s], sessionRef := None\<rparr>)"

definition stopRecording :: "recorder \<Rightarrow> recorder" where
  "stopRecording r =
     (stop_session (stop_timer (stop_processor (stop_stream r))))
       \<lparr>isRecording := False, status := ''Pronto para ouvir''\<rparr>"

text \<open>
  \<open>analyser.frequencyBinCount\<close> for \<open>fftSize = 256\<close>, and the average of the byte
  frequency data (\<open>dataArray\<close> holds \<open>bufferLength\<close> bytes).
\<close>

definition bufferLength :: nat where
  "bufferLength = 128"

definition average :: "nat list \<Rightarrow> rat" where
  "average dataArray = of_nat (sum_list dataArray) / of_nat bufferLength"

text \<open>
  The silence detection of \<open>onaudioprocess\<close>, run at time \<open>now\<close>; \<open>setTimeout(..., 3000)\<close>
  makes a timeout pending that is due 3000 ms later.
\<close>

definition onaudioprocess :: "nat \<Rightarrow> nat list \<Rightarrow> recorder \<Rightarrow> recorder" where
  "onaudioprocess now dataArray r =
     (if average dataArray < 15 then
        (case silenceTimerRef r of
           None \<Rightarrow> r\<lparr>timers := timers r @ [(next_timer r, now + 3000)],
                      silenceTimerRef := Some (next_timer r),
                      next_timer := Suc (next_timer r)\<rparr>
         | Some t \<Rightarrow> r)
      else
        (case silenceTimerRef r of
           Some t \<Rightarrow> (clearTimeout t r)\<lparr>silenceTimerRef := None\<rparr>
         | None \<Rightarrow> r))"

text \<open>The callback of the timeout: it logs and calls \<open>stopRecording\<close>.\<close>

definition silence_callback :: "recorder \<Rightarrow> recorder" where
  "silence_callback r = (stopRecording r)\<lparr>silence_stops := Suc (silence_stops r)\<rparr>"

text \<open>
  The event loop at time \<open>now\<close>: every timeout that is due and still pending leaves the
  pending list and runs its callback.
\<close>

fun fire :: "(nat \<times> nat) list \<Rightarrow> recorder \<Rightarrow> recorder" where
  "fire [] r = r"
| "fire (t # ts) r =
     (if t \<in> set (timers r)
      then fire ts (silence_callback (r\<lparr>timers := removeAll t (timers r)\<rparr>))
      else fire ts r)"

definition advance :: "nat \<Rightarrow> recorder \<Rightarrow> recorder" where
  "advance now r = fire (filter (\<lambda>x. snd x \<le> now) (timers r)) r"

text \<open>
  What happens to a recorder: a capture block arrives at some time with its frequency
  data (delivered only while the processor is connected), or time passes with no block.
\<close>

datatype event = Audio nat "nat list" | Idle nat

fun deliver :: "event \<Rightarrow> recorder \<Rightarrow> recorder" where
  "deliver (Audio now dataArray) r =
     (let r' = advance now r
      in if processor_on r' then onaudioprocess now dataArray r' else r')"
| "deliver (Idle now) r = advance now r"

definition run_events :: "event list \<Rightarrow> recorder \<Rightarrow> recorder" where
  "run_events evs r = foldl (\<lambda>r e. deliver e r) r evs"

text \<open>
  The recorder once \<open>startRecording\<close> has completed: stream, processor and session are
  held and connected, and no timeout is pending. \<open>started\<close> is that state for given
  handles of the stream, the media-stream source node, the analyser, the processor and
  the session, with the three connections \<open>startRecording\<close> makes: source to analyser,
  source to processor, processor to the destination of the context.
\<close>

definition listening :: "recorder \<Rightarrow> bool" where
  "listening r =
     (processor_on r \<and> processorRef r \<noteq> None \<and> silenceTimerRef r = None \<and> timers r = [])"

definition destination :: nat where
  "destination = 0"

definition started :: "nat \<Rightarrow> nat \<Rightarrow> nat \<Rightarrow> nat \<Rightarrow> nat \<Rightarrow> recorder" where
  "started s src a p c =
     \<lparr>streamRef = Some s, processorRef = Some p, silenceTimerRef = None, sessionRef = Some c,
      analyserRef = Some a, isRecording = True, status = ''Ouvindo...'',
      live_streams = [s], graph = [(src, a), (src, p), (p, destination)], timers = [],
      open_sessions = [c], next_timer = 1, processor_on = True, released = [],
      silence_stops = 0\<rparr>"

fun silent :: "event \<Rightarrow> bool" where
  "silent (Audio now dataArray) = (average dataArray < 15)"
| "silent (Idle now) = True"

fun time_of :: "event \<Rightarrow> nat" where
  "time_of (Audio now dataArray) = now"
| "time_of (Idle now) = now"

text \<open>
  Two shapes of a recorder used below. Armed: the processor delivers blocks and the one
  pending timeout is the silence timeout, due at \<open>due\<close>. Halted: everything has been
  released, no timeout is pending and no block is delivered any more.
\<close>

definition armed :: "recorder \<Rightarrow> nat \<Rightarrow> bool" where
  "armed r due =
     (processor_on r \<and> processorRef r \<noteq> None
      \<and> (case silenceTimerRef r of None \<Rightarrow> False | Some t \<Rightarrow> timers r = [(t, due)]))"

definition halted :: "recorder \<Rightarrow> bool" where
  "halted r =
     (\<not> processor_on r \<and> timers r = [] \<and> streamRef r = None \<and> processorRef r = None
      \<and> silenceTimerRef r = None \<and> sessionRef r = None \<and> \<not> isRecording r)"

section \<open>The playback queue\<close>

text \<open>
  \<open>audioQueue\<close> and \<open>isPlaying\<close> are the two refs of the source; a chunk is the
  \<open>Int16Array\<close> of its samples. The buffer sources that have been started and have not
  ended yet are \<open>sounding\<close> (oldest first), \<open>rendered\<close> logs every chunk given to
  \<open>source.start()\<close>, and \<open>thrown\<close> counts the calls of \<open>playNextInQueue\<close> that ended
  with an exception. \<open>createBuffer(1, chunk.length, 24000)\<close> throws a
  \<open>NotSupportedError\<close> for the length 0; \<open>playNextInQueue\<close> has then already set the
  flag and taken the chunk off the queue, and it starts no source. The other platform
  calls of a render complete normally; the conversion of the samples does not bear on
  the queue and is left out.
\<close>

type_synonym chunk = "int list"

record player =
  audioQueue :: "chunk list"
  isPlaying :: bool
  sounding :: "chunk list"
  rendered :: "chunk list"
  thrown :: nat

definition playNextInQueue :: "player \<Rightarrow> player" where
  "playNextInQueue p =
     (case audioQueue p of
        [] \<Rightarrow> p
      | c # rest \<Rightarrow>
          if isPlaying p then p
          else if c = [] then p\<lparr>isPlaying := True, audioQueue := rest, thrown := Suc (thrown p)\<rparr>
          else p\<lparr>isPlaying := True, audioQueue := rest,
                 sounding := sounding p @ [c], rendered := rendered p @ [c]\<rparr>)"

text \<open>
  The three things that touch the queue: a decoded chunk arrives (\<open>push\<close>, then
  \<open>playNextInQueue\<close>), a sounding source ends (\<open>onended\<close>; nothing happens when no source
  is sounding), and the interruption signal.
\<close>

datatype play_event = Enqueue chunk | Ended | Interrupted

fun play_step :: "play_event \<Rightarrow> player \<Rightarrow> player" where
  "play_step (Enqueue c) p = playNextInQueue (p\<lparr>audioQueue := audioQueue p @ [c]\<rparr>)"
| "play_step Ended p =
     (case sounding p of
        [] \<Rightarrow> p
      | c # cs \<Rightarrow> playNextInQueue (p\<lparr>sounding := cs, isPlaying := False\<rparr>))"
| "play_step Interrupted p = p\<lparr>audioQueue := [], isPlaying := False\<rparr>"

definition play :: "play_event list \<Rightarrow> player \<Rightarrow> player" where
  "play evs p = foldl (\<lambda>p e. play_step e p) p evs"

definition idle_player :: player where
  "idle_player =
     \<lparr>audioQueue = [], isPlaying = False, sounding = [], rendered = [], thrown = 0\<rparr>"

fun enqueued :: "play_event list \<Rightarrow> chunk list" where
  "enqueued [] = []"
| "enqueued (Enqueue c # evs) = c # enqueued evs"
| "enqueued (e # evs) = enqueued evs"

text \<open>
  The shape of a player that is draining the chunks \<open>enq\<close>, none of them empty: what
  has been rendered and what still waits make up \<open>enq\<close> in order, nothing has been
  thrown, the flag is set exactly while a source sounds, nothing waits while nothing
  sounds, and the one source that sounds is the last one rendered.
\<close>

definition draining :: "player \<Rightarrow> chunk list \<Rightarrow> bool" where
  "draining p enq =
     (rendered p @ audioQueue p = enq
      \<and> [] \<notin> set enq
      \<and> thrown p = 0
      \<and> (isPlaying p \<longleftrightarrow> sounding p \<noteq> [])
      \<and> (audioQueue p = [] \<or> isPlaying p)
      \<and> (sounding p = [] \<or> (rendered p \<noteq> [] \<and> sounding p = [last (rendered p)])))"

section \<open>The server: \<open>POST /api/expenses\<close>\<close>













section \<open>Numerals of JavaScript numbers\<close>

lemma numeral_jsnumber: "(numeral k :: jsnumber) = Finite (numeral k)"
proof (induction k)
  case One
  show ?case by (simp add: one_jsnumber_def)
next
  case (Bit0 k)
  have "(numeral (Num.Bit0 k) :: jsnumber) = numeral k + numeral k"
    by (simp only: numeral.simps)
  also have "\<dots> = Finite (numeral k + numeral k)"
    by (simp only: Bit0.IH plus_jsnumber.simps)
  also have "\<dots> = Finite (numeral (Num.Bit0 k))"
    by (simp only: numeral.simps)
  finally show ?case .
next
  case (Bit1 k)
  have "(numeral (Num.Bit1 k) :: jsnumber) = numeral k + numeral k + 1"
    by (simp only: numeral.simps)
  also have "\<dots> = Finite (numeral k + numeral k + 1)"
    by (simp only: Bit1.IH plus_jsnumber.simps one_jsnumber_def)
  also have "\<dots> = Finite (numeral (Num.Bit1 k))"
    by (simp only: numeral.simps)
  finally show ?case .
qed

lemmas jsnumber_simps = zero_jsnumber_def numeral_jsnumber

section \<open>The executor, branch by branch\<close>

lemma execute_add:
  "call_name call = ''add_expense'' \<Longrightarrow>
   execute_call cl clk call st =
     (saveLocalData (iso_summary clk)
        (c_expenses cl @ [\<lparr>id_e = date_now clk, amount = arg_amount (args call),
            description = arg_description (args call),
            category_name = arg_category (args call), date = iso_created clk\<rparr>]) st,
      ResultAdded \<lparr>id_e = date_now clk, amount = arg_amount (args call),
            description = arg_description (args call),
            category_name = arg_category (args call), date = iso_created clk\<rparr>,
      [POST_expenses (args call)])"
  by (simp add: execute_call_def Let_def)

lemma execute_get_expenses:
  "call_name call = ''get_expenses'' \<Longrightarrow>
   execute_call cl clk call st = (st, ResultExpenses (c_expenses cl), [])"
  by (simp add: execute_call_def)

lemma execute_delete:
  "call_name call = ''delete_expense'' \<Longrightarrow>
   execute_call cl clk call st =
     (saveLocalData (iso_summary clk)
        (filter (\<lambda>e. id_e e \<noteq> arg_id (args call)) (c_expenses cl)) st,
      ResultSuccess, [DELETE_expenses (arg_id (args call))])"
  by (simp add: execute_call_def Let_def)

lemma execute_get_summary:
  "call_name call = ''get_summary'' \<Longrightarrow>
   execute_call cl clk call st = (st, ResultSummary (c_summary cl), [])"
  by (simp add: execute_call_def)

lemma execute_other:
  "call_name call \<notin> {''add_expense'', ''get_expenses'', ''delete_expense'', ''get_summary''} \<Longrightarrow>
   execute_call cl clk call st = (st, ResultUndefined, [])"
  by (simp add: execute_call_def)

lemma handle_calls_Nil: "handle_calls cl [] w = w"
  by (simp add: handle_calls_def)

lemma handle_calls_Cons:
  "handle_calls cl (cc # ccs) w = handle_calls cl ccs (handle_call cl cc w)"
  by (simp add: handle_calls_def)

section \<open>Arguments of \<open>add_expense\<close>\<close>

text \<open>
  Claim C3 says that \<open>add_expense\<close> validates its arguments and adds nothing when the
  amount is not a finite number or the description or the category is empty. The branch
  has no check at all. What holds is: for every number as amount, finite or not, and
  every description and category, empty ones included, the call creates an Expense with
  exactly these values, the reading of \<open>Date.now()\<close> as id and the current ISO timestamp
  as date; the collection it puts into the state contains that Expense; the stored item
  is what \<open>JSON.stringify\<close> writes for that collection, in which an amount that is not
  finite is \<open>null\<close>; the summary is recomputed from that collection; and the call's
  result carries the created record.
\<close>

theorem add_expense_unvalidated:
  assumes "call_name call = ''add_expense''"
  shows "(case execute_call cl clk call st of
            (st', res, reqs) \<Rightarrow>
              res = ResultAdded \<lparr>id_e = date_now clk, amount = arg_amount (args call),
                      description = arg_description (args call),
                      category_name = arg_category (args call), date = iso_created clk\<rparr>
              \<and> \<lparr>id_e = date_now clk, amount = arg_amount (args call),
                      description = arg_description (args call),
                      category_name = arg_category (args call), date = iso_created clk\<rparr>
                  \<in> set (expenses st')
              \<and> localStorage st' = Some (map stringify (expenses st'))
              \<and> \<lparr>stored_id = date_now clk,
                  stored_amount = (case arg_amount (args call) of Finite q \<Rightarrow> Some q
                                   | PosInfinity \<Rightarrow> None | NegInfinity \<Rightarrow> None | NaN \<Rightarrow> None),
                  stored_description = arg_description (args call),
                  stored_category_name = arg_category (args call),
                  stored_date = iso_created clk\<rparr>
                  \<in> set (map stringify (expenses st'))
              \<and> summary st' = updateSummary (iso_summary clk) (expenses st'))"
  using assms by (simp add: execute_add saveLocalData_def stringify_def)

text \<open>
  The theorem at a call whose amount is \<open>Infinity\<close> and whose description and category
  are both empty.
\<close>

theorem add_expense_unvalidated_witness:
  "(case execute_call (capture initial_state)
           \<lparr>date_now = 1000, iso_created = ''2026-11-03T10:00:00.000Z'',
             iso_summary = ''2026-11-03T10:00:00.000Z''\<rparr>
           \<lparr>call_name = ''add_expense'', call_id = ''call-1'',
             args = \<lparr>arg_amount = PosInfinity, arg_description = [], arg_category = [],
                     arg_id = 0\<rparr>\<rparr>
           initial_state of
      (st', res, reqs) \<Rightarrow>
        res = ResultAdded \<lparr>id_e = 1000, amount = PosInfinity, description = [],
                category_name = [], date = ''2026-11-03T10:00:00.000Z''\<rparr>
        \<and> \<lparr>id_e = 1000, amount = PosInfinity, description = [], category_name = [],
                date = ''2026-11-03T10:00:00.000Z''\<rparr> \<in> set (expenses st')
        \<and> localStorage st' = Some (map stringify (expenses st'))
        \<and> \<lparr>stored_id = 1000, stored_amount = None, stored_description = [],
            stored_category_name = [], stored_date = ''2026-11-03T10:00:00.000Z''\<rparr>
            \<in> set (map stringify (expenses st'))
        \<and> summary st' = updateSummary ''2026-11-03T10:00:00.000Z'' (expenses st'))"
  using add_expense_unvalidated [where
      call = "\<lparr>call_name = ''add_expense'', call_id = ''call-1'',
        args = \<lparr>arg_amount = PosInfinity, arg_description = [], arg_category = [],
                arg_id = 0\<rparr>\<rparr>"
      and cl = "capture initial_state"
      and clk = "\<lparr>date_now = 1000, iso_created = ''2026-11-03T10:00:00.000Z'',
        iso_summary = ''2026-11-03T10:00:00.000Z''\<rparr>"
      and st = initial_state]
  by simp

text \<open>
  Against the claim as stated, on a fresh installation: a call with the amount 25, an
  empty description and an empty category leaves a collection of one Expense, and so
  does a call whose amount is \<open>Infinity\<close>.
\<close>

theorem add_expense_empty_fields_counterexample:
  "expenses (app (session_run initial_state
      [(\<lparr>date_now = 1000, iso_created = ''2026-11-03T10:00:00.000Z'',
         iso_summary = ''2026-11-03T10:00:00.000Z''\<rparr>,
        \<lparr>call_name = ''add_expense'', call_id = ''call-1'',
         args = \<lparr>arg_amount = 25, arg_description = [], arg_category = [], arg_id = 0\<rparr>\<rparr>)]))
   = [\<lparr>id_e = 1000, amount = 25, description = [], category_name = [],
       date = ''2026-11-03T10:00:00.000Z''\<rparr>]
   \<and> expenses (app (session_run initial_state
      [(\<lparr>date_now = 1000, iso_created = ''2026-11-03T10:00:00.000Z'',
         iso_summary = ''2026-11-03T10:00:00.000Z''\<rparr>,
        \<lparr>call_name = ''add_expense'', call_id = ''call-1'',
         args = \<lparr>arg_amount = PosInfinity, arg_description = ''cafe'',
                 arg_category = ''Alimentacao'', arg_id = 0\<rparr>\<rparr>)]))
   = [\<lparr>id_e = 1000, amount = PosInfinity, description = ''cafe'',
       category_name = ''Alimentacao'', date = ''2026-11-03T10:00:00.000Z''\<rparr>]"
  by (simp add: session_run_def handle_calls_Cons handle_calls_Nil handle_call_def execute_add
      capture_def initial_state_def saveLocalData_def)

section \<open>Calls with an unknown name\<close>

text \<open>
  Claim C4 says that a call whose name is none of \<open>add_expense\<close>, \<open>get_expenses\<close>,
  \<open>delete_expense\<close>, \<open>get_summary\<close> is answered with a response tagged
  \<open>UnsupportedTool\<close>. The chain of \<open>if\<close>s has no final \<open>else\<close>, and no value of
  \<open>tool_result\<close> is an error. What holds is: for every such call nothing throws, the
  state of the component and the requests to the server stay as they are, and exactly
  one response is sent, carrying the call's name and id, whose result is \<open>undefined\<close>.
\<close>

theorem unknown_tool_answered_undefined:
  assumes "call_name call \<notin> {''add_expense'', ''get_expenses'', ''delete_expense'', ''get_summary''}"
  shows "handle_call cl (clk, call) w =
           w\<lparr>sent := sent w @ [\<lparr>resp_name = call_name call, resp_id = call_id call,
                                 response = ResultUndefined\<rparr>]\<rparr>"
  using assms by (simp add: handle_call_def execute_other)

theorem unknown_tool_answered_undefined_witness:
  "''unknown_tool'' \<notin> {''add_expense'', ''get_expenses'', ''delete_expense'', ''get_summary''} \<and>
   handle_call (capture initial_state)
     (\<lparr>date_now = 1000, iso_created = ''2026-11-03T10:00:00.000Z'',
         iso_summary = ''2026-11-03T10:00:00.000Z''\<rparr>,
        \<lparr>call_name = ''unknown_tool'', call_id = ''call-7'',
         args = \<lparr>arg_amount = 0, arg_description = [], arg_category = [], arg_id = 0\<rparr>\<rparr>)
     \<lparr>app = initial_state, sent = [], fetched = []\<rparr>
   = \<lparr>app = initial_state,
      sent = [\<lparr>resp_name = ''unknown_tool'', resp_id = ''call-7'', response = ResultUndefined\<rparr>],
      fetched = []\<rparr>"
proof -
  have h: "call_name \<lparr>call_name = ''unknown_tool'', call_id = ''call-7'',
         args = \<lparr>arg_amount = 0, arg_description = [], arg_category = [], arg_id = 0\<rparr>\<rparr>
       \<notin> {''add_expense'', ''get_expenses'', ''delete_expense'', ''get_summary''}"
    by simp
  show ?thesis
    using unknown_tool_answered_undefined [OF h, of "capture initial_state"
       "\<lparr>date_now = 1000, iso_created = ''2026-11-03T10:00:00.000Z'',
         iso_summary = ''2026-11-03T10:00:00.000Z''\<rparr>"
       "\<lparr>app = initial_state, sent = [], fetched = []\<rparr>"]
    by simp
qed

text \<open>
  Against the claim as stated: the response to \<open>unknown_tool\<close> carries the id of the
  call and the result \<open>undefined\<close>, which is no tag.
\<close>

theorem unknown_tool_counterexample:
  "sent (session_run initial_state
      [(\<lparr>date_now = 1000, iso_created = ''2026-11-03T10:00:00.000Z'',
         iso_summary = ''2026-11-03T10:00:00.000Z''\<rparr>,
        \<lparr>call_name = ''unknown_tool'', call_id = ''call-7'',
         args = \<lparr>arg_amount = 0, arg_description = [], arg_category = [], arg_id = 0\<rparr>\<rparr>)])
   = [\<lparr>resp_name = ''unknown_tool'', resp_id = ''call-7'', response = ResultUndefined\<rparr>]"
  by (simp add: session_run_def handle_calls_Cons handle_calls_Nil handle_call_def execute_other)

section \<open>Sessions on a fresh installation\<close>

lemmas run_simps = session_run_def handle_calls_Cons handle_calls_Nil handle_call_def
  capture_def initial_state_def saveLocalData_def

lemmas summary_simps = updateSummary_def today_of_def add_to_category_def set_prop_def
  get_prop_def prototype_methods_def Let_def jsnumber_simps stringify_def

text \<open>
  Claim C1 says that a \<open>get_summary\<close> which follows \<open>add_expense\<close> calls returns a
  Summary that reflects them. The \<open>get_summary\<close> branch returns the \<open>summary\<close> binding
  the session captured when it was opened. On a fresh installation, after
  \<open>add_expense(25, "cafe", "Alimentacao")\<close> the state of the component holds the daily
  total 25 and the bucket \<open>Alimentacao\<close> with 25, and the \<open>get_summary\<close> of the same
  session answers with the daily total 0 and no bucket.
\<close>

theorem get_summary_returns_captured_summary:
  "(let w = session_run initial_state
       [(\<lparr>date_now = 1000, iso_created = ''2026-11-03T10:00:00.000Z'',
          iso_summary = ''2026-11-03T10:00:00.000Z''\<rparr>,
         \<lparr>call_name = ''add_expense'', call_id = ''call-1'',
          args = \<lparr>arg_amount = 25, arg_description = ''cafe'',
                  arg_category = ''Alimentacao'', arg_id = 0\<rparr>\<rparr>),
        (\<lparr>date_now = 2000, iso_created = ''2026-11-03T10:00:01.000Z'',
          iso_summary = ''2026-11-03T10:00:01.000Z''\<rparr>,
         \<lparr>call_name = ''get_summary'', call_id = ''call-2'',
          args = \<lparr>arg_amount = 0, arg_description = [], arg_category = [], arg_id = 0\<rparr>\<rparr>)]
    in summary (app w) = \<lparr>daily = 25, byCategory = [(''Alimentacao'', Num 25)]\<rparr>
       \<and> map response (sent w) =
           [ResultAdded \<lparr>id_e = 1000, amount = 25, description = ''cafe'',
               category_name = ''Alimentacao'', date = ''2026-11-03T10:00:00.000Z''\<rparr>,
            ResultSummary \<lparr>daily = 0, byCategory = []\<rparr>])"
  by (simp add: run_simps execute_add execute_get_summary summary_simps)

text \<open>
  The second scenario of the claim: two adds of 40 and 60 in different categories. The
  second add extends the captured (empty) collection, so the first Expense is gone from
  the state, and \<open>get_summary\<close> again answers with the captured summary.
\<close>

lemma two_adds_then_get_summary:
  "(let w = session_run initial_state
       [(\<lparr>date_now = 1000, iso_created = ''2026-11-03T10:00:00.000Z'',
          iso_summary = ''2026-11-03T10:00:00.000Z''\<rparr>,
         \<lparr>call_name = ''add_expense'', call_id = ''call-1'',
          args = \<lparr>arg_amount = 40, arg_description = ''almoco'',
                  arg_category = ''Alimentacao'', arg_id = 0\<rparr>\<rparr>),
        (\<lparr>date_now = 2000, iso_created = ''2026-11-03T10:00:01.000Z'',
          iso_summary = ''2026-11-03T10:00:01.000Z''\<rparr>,
         \<lparr>call_name = ''add_expense'', call_id = ''call-2'',
          args = \<lparr>arg_amount = 60, arg_description = ''taxi'',
                  arg_category = ''Transporte'', arg_id = 0\<rparr>\<rparr>),
        (\<lparr>date_now = 3000, iso_created = ''2026-11-03T10:00:02.000Z'',
          iso_summary = ''2026-11-03T10:00:02.000Z''\<rparr>,
         \<lparr>call_name = ''get_summary'', call_id = ''call-3'',
          args = \<lparr>arg_amount = 0, arg_description = [], arg_category = [], arg_id = 0\<rparr>\<rparr>)]
    in summary (app w) = \<lparr>daily = 60, byCategory = [(''Transporte'', Num 60)]\<rparr>
       \<and> map amount (expenses (app w)) = [60]
       \<and> response (last (sent w)) = ResultSummary \<lparr>daily = 0, byCategory = []\<rparr>)"
  by (simp add: run_simps execute_add execute_get_summary summary_simps)

text \<open>
  Claim C5 says that \<open>delete_expense\<close> with an id that matches no Expense leaves the
  collection and the Summary unchanged. The branch filters the collection the session
  captured and persists the outcome. On a fresh installation, after one
  \<open>add_expense\<close> the collection holds the Expense with id 1000; \<open>delete_expense(7)\<close>
  in the same session then persists the empty collection and an empty Summary, and
  answers with success.
\<close>

theorem delete_absent_id_restores_captured:
  "(let add = (\<lparr>date_now = 1000, iso_created = ''2026-11-03T10:00:00.000Z'',
                iso_summary = ''2026-11-03T10:00:00.000Z''\<rparr>,
               \<lparr>call_name = ''add_expense'', call_id = ''call-1'',
                args = \<lparr>arg_amount = 25, arg_description = ''cafe'',
                        arg_category = ''Alimentacao'', arg_id = 0\<rparr>\<rparr>);
        del = (\<lparr>date_now = 2000, iso_created = ''2026-11-03T10:00:01.000Z'',
                iso_summary = ''2026-11-03T10:00:01.000Z''\<rparr>,
               \<lparr>call_name = ''delete_expense'', call_id = ''call-2'',
                args = \<lparr>arg_amount = 0, arg_description = [], arg_category = [], arg_id = 7\<rparr>\<rparr>);
        before = app (session_run initial_state [add]);
        after = session_run initial_state [add, del]
    in map id_e (expenses before) = [1000]
       \<and> summary before = \<lparr>daily = 25, byCategory = [(''Alimentacao'', Num 25)]\<rparr>
       \<and> expenses (app after) = []
       \<and> localStorage (app after) = Some []
       \<and> summary (app after) = \<lparr>daily = 0, byCategory = []\<rparr>
       \<and> response (last (sent after)) = ResultSuccess)"
  by (simp add: run_simps execute_add execute_delete summary_simps)

text \<open>
  Claim C6 says that the id of a new Expense differs from the ids of all Expenses
  already in the collection, also for two \<open>add_expense\<close> calls in immediate succession.
  The id is the reading of \<open>Date.now()\<close>. Two calls of one message that run within
  the same millisecond: when the second runs the collection holds the Expense with id
  1000, and the Expense the second creates has the id 1000 too.
\<close>

theorem same_millisecond_same_id:
  "(let clk = \<lparr>date_now = 1000, iso_created = ''2026-11-03T10:00:00.000Z'',
                iso_summary = ''2026-11-03T10:00:00.000Z''\<rparr>;
        first = \<lparr>call_name = ''add_expense'', call_id = ''call-1'',
                  args = \<lparr>arg_amount = 40, arg_description = ''almoco'',
                          arg_category = ''Alimentacao'', arg_id = 0\<rparr>\<rparr>;
        second = \<lparr>call_name = ''add_expense'', call_id = ''call-2'',
                  args = \<lparr>arg_amount = 60, arg_description = ''taxi'',
                          arg_category = ''Transporte'', arg_id = 0\<rparr>\<rparr>;
        w1 = session_run initial_state [(clk, first)];
        w2 = session_run initial_state [(clk, first), (clk, second)]
    in map id_e (expenses (app w1)) = [1000]
       \<and> response (last (sent w2)) =
           ResultAdded \<lparr>id_e = 1000, amount = 60, description = ''taxi'',
               category_name = ''Transporte'', date = ''2026-11-03T10:00:00.000Z''\<rparr>)"
  by (simp add: run_simps execute_add summary_simps)

section \<open>Teardown of a recording\<close>

lemma stop_stream_fields:
  "streamRef (stop_stream r) = None"
  "processorRef (stop_stream r) = processorRef r"
  "silenceTimerRef (stop_stream r) = silenceTimerRef r"
  "sessionRef (stop_stream r) = sessionRef r"
  "released (stop_stream r) =
     released r @ (case streamRef r of None \<Rightarrow> [] | Some s \<Rightarrow> [TracksStopped s])"
  by (simp_all add: stop_stream_def split: option.splits)

lemma stop_processor_fields:
  "streamRef (stop_processor r) = streamRef r"
  "processorRef (stop_processor r) = None"
  "silenceTimerRef (stop_processor r) = silenceTimerRef r"
  "sessionRef (stop_processor r) = sessionRef r"
  "released (stop_processor r) =
     released r @ (case processorRef r of None \<Rightarrow> [] | Some p \<Rightarrow> [ProcessorDisconnected p])"
  by (simp_all add: stop_processor_def split: option.splits)

lemma stop_timer_fields:
  "streamRef (stop_timer r) = streamRef r"
  "processorRef (stop_timer r) = processorRef r"
  "silenceTimerRef (stop_timer r) = None"
  "sessionRef (stop_timer r) = sessionRef r"
  "released (stop_timer r) =
     released r @ (case silenceTimerRef r of None \<Rightarrow> [] | Some t \<Rightarrow> [TimeoutCleared t])"
  by (simp_all add: stop_timer_def clearTimeout_def split: option.splits)

lemma stop_session_fields:
  "streamRef (stop_session r) = streamRef r"
  "processorRef (stop_session r) = processorRef r"
  "silenceTimerRef (stop_session r) = silenceTimerRef r"
  "sessionRef (stop_session r) = None"
  "released (stop_session r) =
     released r @ (case sessionRef r of None \<Rightarrow> [] | Some c \<Rightarrow> [SessionClosed c])"
  by (simp_all add: stop_session_def split: option.splits)

lemmas stop_fields = stop_stream_fields stop_processor_fields stop_timer_fields stop_session_fields

lemma stop_stream_resources:
  "analyserRef (stop_stream r) = analyserRef r"
  "live_streams (stop_stream r) =
     (case streamRef r of None \<Rightarrow> live_streams r | Some s \<Rightarrow> removeAll s (live_streams r))"
  "graph (stop_stream r) = graph r"
  "open_sessions (stop_stream r) = open_sessions r"
  by (simp_all add: stop_stream_def split: option.splits)

lemma stop_processor_resources:
  "analyserRef (stop_processor r) = analyserRef r"
  "live_streams (stop_processor r) = live_streams r"
  "graph (stop_processor r) =
     (case processorRef r of None \<Rightarrow> graph r
      | Some p \<Rightarrow> filter (\<lambda>e. fst e \<noteq> p) (graph r))"
  "open_sessions (stop_processor r) = open_sessions r"
  by (simp_all add: stop_processor_def split: option.splits)

lemma stop_timer_resources:
  "analyserRef (stop_timer r) = analyserRef r"
  "live_streams (stop_timer r) = live_streams r"
  "graph (stop_timer r) = graph r"
  "open_sessions (stop_timer r) = open_sessions r"
  by (simp_all add: stop_timer_def clearTimeout_def split: option.splits)

lemma stop_session_resources:
  "analyserRef (stop_session r) = analyserRef r"
  "live_streams (stop_session r) = live_streams r"
  "graph (stop_session r) = graph r"
  "open_sessions (stop_session r) =
     (case sessionRef r of None \<Rightarrow> open_sessions r
      | Some c \<Rightarrow> removeAll c (open_sessions r))"
  by (simp_all add: stop_session_def split: option.splits)

lemmas stop_resources = stop_stream_resources stop_processor_resources stop_timer_resources
  stop_session_resources

lemma stop_timer_timers:
  "timers (stop_stream r) = timers r"
  "timers (stop_processor r) = timers r"
  "timers (stop_timer r) =
     (case silenceTimerRef r of None \<Rightarrow> timers r
      | Some t \<Rightarrow> filter (\<lambda>x. fst x \<noteq> t) (timers r))"
  "timers (stop_session r) = timers r"
  by (simp_all add: stop_stream_def stop_processor_def stop_timer_def stop_session_def
      clearTimeout_def split: option.splits)

lemma stop_nothing_held:
  "streamRef r = None \<Longrightarrow> stop_stream r = r"
  "processorRef r = None \<Longrightarrow> stop_processor r = r"
  "silenceTimerRef r = None \<Longrightarrow> stop_timer r = r"
  "sessionRef r = None \<Longrightarrow> stop_session r = r"
  by (simp_all add: stop_stream_def stop_processor_def stop_timer_def stop_session_def)

lemma stopRecording_refs:
  "streamRef (stopRecording r) = None"
  "processorRef (stopRecording r) = None"
  "silenceTimerRef (stopRecording r) = None"
  "sessionRef (stopRecording r) = None"
  by (simp_all add: stopRecording_def stop_fields)

lemma stopRecording_released:
  "released (stopRecording r) =
        released r
        @ (case streamRef r of None \<Rightarrow> [] | Some s \<Rightarrow> [TracksStopped s])
        @ (case processorRef r of None \<Rightarrow> [] | Some p \<Rightarrow> [ProcessorDisconnected p])
        @ (case silenceTimerRef r of None \<Rightarrow> [] | Some t \<Rightarrow> [TimeoutCleared t])
        @ (case sessionRef r of None \<Rightarrow> [] | Some c \<Rightarrow> [SessionClosed c])"
  by (simp add: stopRecording_def stop_fields)

lemma stopRecording_resources:
  "analyserRef (stopRecording r) = analyserRef r"
  "live_streams (stopRecording r) =
     (case streamRef r of None \<Rightarrow> live_streams r | Some s \<Rightarrow> removeAll s (live_streams r))"
  "graph (stopRecording r) =
     (case processorRef r of None \<Rightarrow> graph r
      | Some p \<Rightarrow> filter (\<lambda>e. fst e \<noteq> p) (graph r))"
  "timers (stopRecording r) =
     (case silenceTimerRef r of None \<Rightarrow> timers r
      | Some t \<Rightarrow> filter (\<lambda>x. fst x \<noteq> t) (timers r))"
  "open_sessions (stopRecording r) =
     (case sessionRef r of None \<Rightarrow> open_sessions r
      | Some c \<Rightarrow> removeAll c (open_sessions r))"
  by (simp_all add: stopRecording_def stop_fields stop_resources stop_timer_timers
      split: option.splits)

lemma stopRecording_idem: "stopRecording (stopRecording r) = stopRecording r"
proof -
  have "stop_session (stop_timer (stop_processor (stop_stream (stopRecording r)))) = stopRecording r"
    by (simp add: stop_nothing_held stopRecording_refs)
  then have "stopRecording (stopRecording r) =
      (stopRecording r)\<lparr>isRecording := False, status := ''Pronto para ouvir''\<rparr>"
    by (simp only: stopRecording_def [of "stopRecording r"])
  also have "\<dots> = stopRecording r"
    by (simp add: stopRecording_def [of r])
  finally show ?thesis .
qed

text \<open>
  Claim C9 says that stopping releases the microphone stream, the audio processing
  nodes, the pending silence timer and the session, each even if the others were never
  acquired, and that a second call is a no-op. Of the audio nodes \<open>stopRecording\<close>
  disconnects only the script processor, and only its outputs. What holds is: for every
  state, after \<open>stopRecording\<close> the four refs are empty; the tracks of the stream that
  was held are stopped, the connections leaving the processor that was held are gone,
  the timeout that was held is no longer pending and the session that was held is
  closed, each whatever the others were; every other connection of the audio graph
  stays, and \<open>analyserRef\<close> keeps its value; the release calls made are exactly one for
  every resource that was held; and \<open>stopRecording\<close> after \<open>stopRecording\<close> is
  \<open>stopRecording\<close>, so a second call changes nothing and makes no release call.
\<close>

theorem stopRecording_releases_each_once:
  "streamRef (stopRecording r) = None
   \<and> processorRef (stopRecording r) = None
   \<and> silenceTimerRef (stopRecording r) = None
   \<and> sessionRef (stopRecording r) = None
   \<and> live_streams (stopRecording r) =
        (case streamRef r of None \<Rightarrow> live_streams r
         | Some s \<Rightarrow> removeAll s (live_streams r))
   \<and> graph (stopRecording r) =
        (case processorRef r of None \<Rightarrow> graph r
         | Some p \<Rightarrow> filter (\<lambda>e. fst e \<noteq> p) (graph r))
   \<and> timers (stopRecording r) =
        (case silenceTimerRef r of None \<Rightarrow> timers r
         | Some t \<Rightarrow> filter (\<lambda>x. fst x \<noteq> t) (timers r))
   \<and> open_sessions (stopRecording r) =
        (case sessionRef r of None \<Rightarrow> open_sessions r
         | Some c \<Rightarrow> removeAll c (open_sessions r))
   \<and> analyserRef (stopRecording r) = analyserRef r
   \<and> released (stopRecording r) =
        released r
        @ (case streamRef r of None \<Rightarrow> [] | Some s \<Rightarrow> [TracksStopped s])
        @ (case processorRef r of None \<Rightarrow> [] | Some p \<Rightarrow> [ProcessorDisconnected p])
        @ (case silenceTimerRef r of None \<Rightarrow> [] | Some t \<Rightarrow> [TimeoutCleared t])
        @ (case sessionRef r of None \<Rightarrow> [] | Some c \<Rightarrow> [SessionClosed c])
   \<and> stopRecording (stopRecording r) = stopRecording r"
  using stopRecording_refs [of r] stopRecording_resources [of r] stopRecording_released [of r]
    stopRecording_idem [of r]
  by (simp only: simp_thms)

text \<open>
  Against the claim as stated: a recording started with the stream 4, the source node
  5, the analyser 6, the processor 7 and the session 8. After \<open>stopRecording\<close> the
  source is still connected to the analyser and to the processor, and \<open>analyserRef\<close>
  still holds the analyser.
\<close>

theorem stopRecording_leaves_analyser_counterexample:
  "graph (stopRecording (started 4 5 6 7 8)) = [(5, 6), (5, 7)]
   \<and> analyserRef (stopRecording (started 4 5 6 7 8)) = Some 6"
  by (simp add: stopRecording_resources started_def)

section \<open>Find-or-create of a category on the server\<close>








section \<open>The buckets of a summary\<close>

text \<open>
  Claim C2 says that the recomputed Summary holds the daily total of the expenses dated
  today and buckets that partition the whole collection by exact category name, every
  expense counted in exactly one bucket, the bucket totals summing to the sum of all
  amounts. The daily total is as claimed. The buckets are not, for every collection: an
  expense whose category name is \<open>__proto__\<close> is counted in no bucket, because the
  assignment to \<open>categories["__proto__"]\<close> creates no property. For the collection of
  that one expense of 25 the Summary has the daily total 25 and no bucket at all.
\<close>

theorem proto_category_is_dropped:
  "(let s = updateSummary ''2026-11-03T10:00:00.000Z''
              [\<lparr>id_e = 1000, amount = 25, description = ''cafe'', category_name = ''__proto__'',
                date = ''2026-11-03T09:00:00.000Z''\<rparr>]
    in daily s = 25 \<and> byCategory s = [])"
  by (simp add: summary_simps)

text \<open>
  A category named after a method of \<open>Object.prototype\<close> gets a bucket whose total is
  a string, not a number.
\<close>

lemma constructor_category_is_text:
  "byCategory (updateSummary ''2026-11-03T10:00:00.000Z''
              [\<lparr>id_e = 1000, amount = 25, description = ''cafe'', category_name = ''constructor'',
                date = ''2026-11-03T09:00:00.000Z''\<rparr>]) = [(''constructor'', Str)]"
  by (simp add: summary_simps)

lemma finite_number_plus:
  "finite_number x \<Longrightarrow> finite_number y \<Longrightarrow> finite_number (x + y)"
  by (cases x; cases y) simp_all

lemma or_zero_finite: "finite_number x \<Longrightarrow> or_zero (Num x) = Num x"
  by (cases x) (simp_all add: zero_jsnumber_def)

lemma foldl_plus_amount: "foldl (\<lambda>sum e. sum + amount e) a es = a + sum_list (map amount es)"
  by (induction es arbitrary: a) (simp_all add: ac_simps)

lemma daily_is_sum_of_today:
  "daily (updateSummary stamp es) =
     sum_list (map amount (filter (\<lambda>e. prefix (today_of stamp) (date e)) es))"
  by (simp add: updateSummary_def Let_def foldl_plus_amount)

lemma byCategory_foldl: "byCategory (updateSummary stamp es) = foldl add_to_category [] es"
  by (simp add: updateSummary_def Let_def)

lemma update_absent: "k \<notin> fst ` set cs \<Longrightarrow> AList.update k v cs = cs @ [(k, v)]"
  by (induction cs) auto

lemma total_update_present:
  "distinct (map fst cs) \<Longrightarrow> map_of cs k = Some (Num x) \<Longrightarrow>
   sum_list (map (\<lambda>p. number_of (snd p)) (AList.update k (Num (x + a)) cs)) =
   sum_list (map (\<lambda>p. number_of (snd p)) cs) + a"
proof (induction cs)
  case Nil
  then show ?case by simp
next
  case (Cons p cs)
  obtain k' v where p: "p = (k', v)" by (cases p)
  show ?case
  proof (cases "k' = k")
    case True
    with Cons.prems p show ?thesis by (simp add: ac_simps)
  next
    case False
    with Cons p show ?thesis by (simp add: ac_simps)
  qed
qed

lemma list_all_update:
  "list_all P cs \<Longrightarrow> P (k, v) \<Longrightarrow> list_all P (AList.update k v cs)"
  by (induction cs) auto

lemma numeric_lookup:
  "numeric cs \<Longrightarrow> map_of cs k = Some v \<Longrightarrow>
   v = Num (number_of v) \<and> finite_number (number_of v)"
proof -
  assume n: "numeric cs" and m: "map_of cs k = Some v"
  from m have "(k, v) \<in> set cs" by (rule map_of_SomeD)
  with n show ?thesis by (auto simp: numeric_def list_all_iff)
qed

lemma add_ordinary:
  assumes "numeric cs" and "ordinary_name (category_name e)" and "finite_number (amount e)"
  shows "numeric (add_to_category cs e)
    \<and> total_of (add_to_category cs e) = total_of cs + amount e
    \<and> map_of (add_to_category cs e) =
           (map_of cs)(category_name e \<mapsto>
              Num ((case map_of cs (category_name e) of Some v \<Rightarrow> number_of v | None \<Rightarrow> 0)
                   + amount e))"
proof -
  let ?k = "category_name e"
  from assms(2) have k: "?k \<noteq> ''__proto__''" "?k \<notin> set prototype_methods"
    by (simp_all add: ordinary_name_def)
  show ?thesis
  proof (cases "map_of cs ?k")
    case None
    then have absent: "?k \<notin> fst ` set cs" by (simp add: map_of_eq_None_iff)
    from None k have eq: "add_to_category cs e = cs @ [(?k, Num (amount e))]"
      by (simp add: add_to_category_def get_prop_def set_prop_def update_absent [OF absent])
    from assms(1,3) absent have 1: "numeric (add_to_category cs e)"
      by (simp add: eq numeric_def)
    have 2: "total_of (add_to_category cs e) = total_of cs + amount e"
      by (simp add: eq total_of_def)
    from None k have 3: "map_of (add_to_category cs e) = (map_of cs)(?k \<mapsto> Num (0 + amount e))"
      by (simp add: add_to_category_def get_prop_def set_prop_def update_conv')
    from 1 2 3 None show ?thesis by simp
  next
    case (Some v)
    with assms(1) have v: "v = Num (number_of v)" and f: "finite_number (number_of v)"
      using numeric_lookup by blast+
    define x where "x = number_of v"
    from v f have vx: "v = Num x" and fx: "finite_number x" by (simp_all add: x_def)
    from Some k vx fx have eq: "add_to_category cs e = AList.update ?k (Num (x + amount e)) cs"
      by (simp add: add_to_category_def get_prop_def set_prop_def or_zero_finite
          del: or_zero.simps)
    from assms(1,3) fx have 1: "numeric (add_to_category cs e)"
      by (simp add: eq numeric_def distinct_update list_all_update finite_number_plus)
    from assms(1) Some vx have 2: "total_of (add_to_category cs e) = total_of cs + amount e"
      by (simp add: eq total_of_def total_update_present numeric_def)
    have 3: "map_of (add_to_category cs e) = (map_of cs)(?k \<mapsto> Num (x + amount e))"
      by (simp add: eq update_conv')
    from 1 2 3 Some vx show ?thesis by simp
  qed
qed

lemma filter_absent_category:
  "k \<notin> category_name ` set es \<Longrightarrow> filter (\<lambda>e. category_name e = k) es = []"
  by (induction es) auto

lemma buckets_of_snoc:
  "buckets_of (es @ [e]) =
     (buckets_of es)(category_name e \<mapsto>
        Num ((case buckets_of es (category_name e) of Some v \<Rightarrow> number_of v | None \<Rightarrow> 0)
             + amount e))"
  by (rule ext) (auto simp: buckets_of_def category_total_def filter_absent_category)

lemma ordinary_fold:
  assumes "list_all (\<lambda>e. ordinary_name (category_name e) \<and> finite_number (amount e)) es"
  shows "numeric (foldl add_to_category [] es)
         \<and> total_of (foldl add_to_category [] es) = sum_list (map amount es)
         \<and> map_of (foldl add_to_category [] es) = buckets_of es"
  using assms
proof (induction es rule: rev_induct)
  case Nil
  show ?case by (auto simp: numeric_def total_of_def buckets_of_def)
next
  case (snoc e es)
  then have ih: "numeric (foldl add_to_category [] es)"
      "total_of (foldl add_to_category [] es) = sum_list (map amount es)"
      "map_of (foldl add_to_category [] es) = buckets_of es"
    and e: "ordinary_name (category_name e)" "finite_number (amount e)"
    by simp_all
  from add_ordinary [OF ih(1) e] ih(2,3) show ?case
    by (simp add: buckets_of_snoc)
qed

text \<open>
  For collections of finite amounts in which no category is named after a member of
  \<open>Object.prototype\<close> the summary is what the claim says: the daily total is the sum of
  the amounts of the expenses whose date starts with today's date, the bucket names are
  distinct, the buckets are exactly those of the specification, and their totals sum to
  the sum of all amounts.
\<close>

lemma summary_partitions_ordinary_names:
  assumes "list_all (\<lambda>e. ordinary_name (category_name e) \<and> finite_number (amount e)) es"
  shows "daily (updateSummary stamp es) =
           sum_list (map amount (filter (\<lambda>e. prefix (today_of stamp) (date e)) es))
         \<and> distinct (map fst (byCategory (updateSummary stamp es)))
         \<and> map_of (byCategory (updateSummary stamp es)) = buckets_of es
         \<and> sum_list (map (\<lambda>p. number_of (snd p)) (byCategory (updateSummary stamp es))) =
             sum_list (map amount es)"
  using ordinary_fold [OF assms]
  by (simp add: daily_is_sum_of_today byCategory_foldl numeric_def total_of_def)

section \<open>The discipline of the playback queue\<close>

lemma play_Nil: "play [] p = p"
  by (simp add: play_def)

lemma play_Cons: "play (e # evs) p = play evs (play_step e p)"
  by (simp add: play_def)

lemma play_snoc: "play (evs @ [e]) p = play_step e (play evs p)"
  by (simp add: play_def)

lemma nothing_sounding_nothing_ends:
  "sounding p = [] \<Longrightarrow> play (replicate n Ended) p = p"
  by (induction n) (simp_all add: play_Nil play_Cons)

text \<open>
  Claim C8 says that for every N, N chunks enqueued into the idle queue are rendered in
  N render invocations, in order. A chunk without samples breaks this. Enqueued into
  the idle player and followed by the chunk \<open>[7, 8]\<close>, it is taken off the queue and the
  flag is set, \<open>createBuffer\<close> throws and no source is started; the second chunk then
  waits behind a flag that no \<open>onended\<close> will ever clear: nothing has been rendered,
  and no number of completions changes that.
\<close>

theorem empty_chunk_blocks_the_queue:
  "play [Enqueue [], Enqueue [7, 8]] idle_player =
     \<lparr>audioQueue = [[7, 8]], isPlaying = True, sounding = [], rendered = [], thrown = 1\<rparr>
   \<and> (\<forall>n. play (replicate n Ended) (play [Enqueue [], Enqueue [7, 8]] idle_player) =
            play [Enqueue [], Enqueue [7, 8]] idle_player)"
proof -
  have p: "play [Enqueue [], Enqueue [7, 8]] idle_player =
     \<lparr>audioQueue = [[7, 8]], isPlaying = True, sounding = [], rendered = [], thrown = 1\<rparr>"
    by (simp add: play_Cons play_Nil idle_player_def playNextInQueue_def)
  have "\<forall>n. play (replicate n Ended) (play [Enqueue [], Enqueue [7, 8]] idle_player) =
            play [Enqueue [], Enqueue [7, 8]] idle_player"
    by (simp add: p nothing_sounding_nothing_ends)
  with p show ?thesis by (simp only: simp_thms)
qed

lemma enqueued_snoc:
  "enqueued (evs @ [e]) = enqueued evs @ (case e of Enqueue c \<Rightarrow> [c] | Ended \<Rightarrow> [] | Interrupted \<Rightarrow> [])"
  by (induction evs rule: enqueued.induct) (auto split: play_event.splits)

lemma draining_idle: "draining idle_player []"
  by (simp add: draining_def idle_player_def)

lemma draining_Enqueue:
  "draining p enq \<Longrightarrow> c \<noteq> [] \<Longrightarrow> draining (play_step (Enqueue c) p) (enq @ [c])"
  by (cases "audioQueue p") (auto simp: draining_def playNextInQueue_def)

lemma draining_Ended:
  "draining p enq \<Longrightarrow> draining (play_step Ended p) enq"
  by (cases "sounding p"; cases "audioQueue p") (auto simp: draining_def playNextInQueue_def)

lemma draining_play:
  "Interrupted \<notin> set evs \<Longrightarrow> [] \<notin> set (enqueued evs) \<Longrightarrow>
   draining (play evs idle_player) (enqueued evs)"
proof (induction evs rule: rev_induct)
  case Nil
  show ?case by (simp add: play_Nil draining_idle)
next
  case (snoc e evs)
  then have ih: "draining (play evs idle_player) (enqueued evs)" and e: "e \<noteq> Interrupted"
    by (auto simp: enqueued_snoc)
  show ?case
  proof (cases e)
    case (Enqueue c)
    with snoc.prems(2) have "c \<noteq> []" by (auto simp: enqueued_snoc)
    with Enqueue draining_Enqueue [OF ih, of c] show ?thesis
      by (simp add: play_snoc enqueued_snoc)
  next
    case Ended
    with draining_Ended [OF ih] show ?thesis
      by (simp add: play_snoc enqueued_snoc)
  next
    case Interrupted
    with e show ?thesis by simp
  qed
qed

lemma ended_next:
  "draining p enq \<Longrightarrow> audioQueue p = c # q \<Longrightarrow>
   play_step Ended p = p\<lparr>audioQueue := q, sounding := [c], rendered := rendered p @ [c]\<rparr>"
  by (cases "sounding p") (auto simp: draining_def playNextInQueue_def)

lemma ended_last:
  "draining p enq \<Longrightarrow> audioQueue p = [] \<Longrightarrow>
   play_step Ended p = p\<lparr>sounding := [], isPlaying := False\<rparr>"
  by (cases "sounding p") (auto simp: draining_def playNextInQueue_def)

lemma drained:
  "draining p enq \<Longrightarrow> length (audioQueue p) + length (sounding p) \<le> n \<Longrightarrow>
   play (replicate n Ended) p =
     \<lparr>audioQueue = [], isPlaying = False, sounding = [], rendered = enq, thrown = 0\<rparr>"
proof (induction n arbitrary: p)
  case 0
  then show ?case by (cases p) (auto simp: play_Nil draining_def)
next
  case (Suc n)
  have d: "draining (play_step Ended p) enq" by (rule draining_Ended [OF Suc.prems(1)])
  have "length (audioQueue (play_step Ended p)) + length (sounding (play_step Ended p)) \<le> n"
  proof (cases "audioQueue p")
    case Nil
    with ended_last [OF Suc.prems(1)] show ?thesis by simp
  next
    case (Cons c q)
    from Suc.prems(1) Cons have "sounding p \<noteq> []" by (auto simp: draining_def)
    with Suc.prems have "length (sounding p) = 1" by (auto simp: draining_def)
    with ended_next [OF Suc.prems(1) Cons] Suc.prems(2) Cons show ?thesis by simp
  qed
  from Suc.IH [OF d this] show ?case by (simp add: play_Cons)
qed

lemma draining_bound:
  "draining p enq \<Longrightarrow> length (audioQueue p) + length (sounding p) \<le> length enq"
proof -
  assume d: "draining p enq"
  then have l: "length enq = length (rendered p) + length (audioQueue p)"
    by (auto simp: draining_def)
  show ?thesis
  proof (cases "sounding p")
    case Nil
    with l show ?thesis by simp
  next
    case (Cons c cs)
    with d have "rendered p \<noteq> []" "length (sounding p) = 1" by (auto simp: draining_def)
    then have "length (sounding p) \<le> length (rendered p)" by (cases "rendered p") auto
    with l show ?thesis by simp
  qed
qed

text \<open>
  When no enqueued chunk is empty the queue does what the claim says. For every sequence
  of arrivals and completions without an interruption, starting from the idle player: at
  most one source sounds, and the flag is set exactly while one does; what has been
  rendered followed by what waits is the sequence of the chunks enqueued; a chunk waits
  only while a source sounds; the completion of a source starts the chunk at the head
  of the queue at once; and after as many completions as chunks were enqueued the player
  is idle again and has rendered exactly the enqueued chunks in their order.
\<close>

lemma nonempty_chunks_play_in_order:
  assumes "Interrupted \<notin> set evs" and "[] \<notin> set (enqueued evs)"
  shows "length (sounding (play evs idle_player)) \<le> 1
     \<and> (isPlaying (play evs idle_player) \<longleftrightarrow> sounding (play evs idle_player) \<noteq> [])
     \<and> rendered (play evs idle_player) @ audioQueue (play evs idle_player) = enqueued evs
     \<and> (audioQueue (play evs idle_player) = [] \<or> isPlaying (play evs idle_player))
     \<and> (\<forall>c q. audioQueue (play evs idle_player) = c # q \<longrightarrow>
            play_step Ended (play evs idle_player) =
              (play evs idle_player)\<lparr>audioQueue := q, sounding := [c],
                 rendered := rendered (play evs idle_player) @ [c]\<rparr>)
     \<and> play (replicate (length (enqueued evs)) Ended) (play evs idle_player) =
          \<lparr>audioQueue = [], isPlaying = False, sounding = [], rendered = enqueued evs,
           thrown = 0\<rparr>"
proof -
  have d: "draining (play evs idle_player) (enqueued evs)"
    by (rule draining_play [OF assms])
  have 1: "length (sounding (play evs idle_player)) \<le> 1"
    using d by (auto simp: draining_def)
  have 2: "isPlaying (play evs idle_player) \<longleftrightarrow> sounding (play evs idle_player) \<noteq> []"
    using d by (simp add: draining_def)
  have 3: "rendered (play evs idle_player) @ audioQueue (play evs idle_player) = enqueued evs"
    using d by (simp add: draining_def)
  have 4: "audioQueue (play evs idle_player) = [] \<or> isPlaying (play evs idle_player)"
    using d by (auto simp: draining_def)
  have 5: "\<forall>c q. audioQueue (play evs idle_player) = c # q \<longrightarrow>
            play_step Ended (play evs idle_player) =
              (play evs idle_player)\<lparr>audioQueue := q, sounding := [c],
                 rendered := rendered (play evs idle_player) @ [c]\<rparr>"
    using ended_next [OF d] by blast
  have 6: "play (replicate (length (enqueued evs)) Ended) (play evs idle_player) =
          \<lparr>audioQueue = [], isPlaying = False, sounding = [], rendered = enqueued evs,
           thrown = 0\<rparr>"
    by (rule drained [OF d draining_bound [OF d]])
  from 1 2 3 4 5 6 show ?thesis by blast
qed

section \<open>The silence timeout\<close>

lemma stop_stream_platform:
  "processor_on (stop_stream r) = processor_on r"
  "timers (stop_stream r) = timers r"
  "silence_stops (stop_stream r) = silence_stops r"
  by (simp_all add: stop_stream_def split: option.splits)

lemma stop_processor_platform:
  "processor_on (stop_processor r) = (processor_on r \<and> processorRef r = None)"
  "timers (stop_processor r) = timers r"
  "silence_stops (stop_processor r) = silence_stops r"
  by (simp_all add: stop_processor_def split: option.splits)

lemma stop_timer_platform:
  "processor_on (stop_timer r) = processor_on r"
  "timers (stop_timer r) =
     (case silenceTimerRef r of None \<Rightarrow> timers r
      | Some t \<Rightarrow> filter (\<lambda>x. fst x \<noteq> t) (timers r))"
  "silence_stops (stop_timer r) = silence_stops r"
  by (simp_all add: stop_timer_def clearTimeout_def split: option.splits)

lemma stop_session_platform:
  "processor_on (stop_session r) = processor_on r"
  "timers (stop_session r) = timers r"
  "silence_stops (stop_session r) = silence_stops r"
  by (simp_all add: stop_session_def split: option.splits)

lemmas stop_platform = stop_stream_platform stop_processor_platform stop_timer_platform
  stop_session_platform

lemma stopRecording_platform:
  "processor_on (stopRecording r) = (processor_on r \<and> processorRef r = None)"
  "timers (stopRecording r) =
     (case silenceTimerRef r of None \<Rightarrow> timers r
      | Some t \<Rightarrow> filter (\<lambda>x. fst x \<noteq> t) (timers r))"
  "silence_stops (stopRecording r) = silence_stops r"
  "isRecording (stopRecording r) = False"
  by (simp_all add: stopRecording_def stop_fields stop_platform split: option.splits)

lemma silence_callback_halts:
  "processorRef r \<noteq> None \<Longrightarrow> timers r = [] \<Longrightarrow>
   halted (silence_callback r) \<and> silence_stops (silence_callback r) = Suc (silence_stops r)"
  by (simp add: halted_def silence_callback_def stopRecording_refs stopRecording_platform
      split: option.splits)

lemma advance_not_due:
  "armed r due \<Longrightarrow> now < due \<Longrightarrow> advance now r = r"
  by (auto simp: armed_def advance_def split: option.splits)

lemma advance_due:
  assumes "armed r due" and "due \<le> now"
  shows "halted (advance now r) \<and> silence_stops (advance now r) = Suc (silence_stops r)"
proof -
  from assms(1) obtain t where t: "silenceTimerRef r = Some t" "timers r = [(t, due)]"
    and p: "processorRef r \<noteq> None"
    by (auto simp: armed_def split: option.splits)
  from t assms(2) have "advance now r = silence_callback (r\<lparr>timers := []\<rparr>)"
    by (simp add: advance_def)
  moreover from p have "halted (silence_callback (r\<lparr>timers := []\<rparr>))
      \<and> silence_stops (silence_callback (r\<lparr>timers := []\<rparr>)) = Suc (silence_stops (r\<lparr>timers := []\<rparr>))"
    by (intro silence_callback_halts) simp_all
  ultimately show ?thesis by simp
qed

lemma advance_no_timer: "timers r = [] \<Longrightarrow> advance now r = r"
  by (simp add: advance_def)

lemma halted_stays: "halted r \<Longrightarrow> deliver e r = r"
  by (cases e) (simp_all add: halted_def advance_no_timer)

lemma halted_run: "halted r \<Longrightarrow> run_events evs r = r"
  by (induction evs) (simp_all add: run_events_def halted_stays)

lemma run_events_Nil: "run_events [] r = r"
  by (simp add: run_events_def)

lemma run_events_Cons: "run_events (e # evs) r = run_events evs (deliver e r)"
  by (simp add: run_events_def)

lemma run_events_append: "run_events (evs @ evs') r = run_events evs' (run_events evs r)"
  by (simp add: run_events_def)

lemma armed_silent_early:
  "armed r due \<Longrightarrow> silent e \<Longrightarrow> time_of e < due \<Longrightarrow> deliver e r = r"
  by (cases e) (auto simp: advance_not_due onaudioprocess_def armed_def split: option.splits)

lemma armed_late:
  assumes "armed r due" and "due \<le> time_of e"
  shows "halted (deliver e r) \<and> silence_stops (deliver e r) = Suc (silence_stops r)"
proof (cases e)
  case (Audio now d)
  with assms advance_due [OF assms(1), of now] show ?thesis
    by (simp add: halted_def Let_def)
next
  case (Idle now)
  with assms advance_due [OF assms(1), of now] show ?thesis by simp
qed

lemma first_silent_block:
  assumes "listening r" and "average d < 15"
  shows "armed (deliver (Audio now d) r) (now + 3000)
         \<and> silence_stops (deliver (Audio now d) r) = silence_stops r"
  using assms
  by (simp add: listening_def advance_no_timer onaudioprocess_def armed_def Let_def)

lemma silent_run:
  assumes "list_all silent evs"
  shows "armed r due \<Longrightarrow> silence_stops r = k \<Longrightarrow>
         (armed (run_events evs r) due \<and> silence_stops (run_events evs r) = k)
         \<or> (halted (run_events evs r) \<and> silence_stops (run_events evs r) = Suc k)"
  using assms
proof (induction evs arbitrary: r)
  case Nil
  then show ?case by (simp add: run_events_def)
next
  case (Cons e evs)
  from Cons.prems have s: "silent e" and rest: "list_all silent evs" by simp_all
  show ?case
  proof (cases "time_of e < due")
    case True
    with Cons.prems s have "deliver e r = r" by (simp add: armed_silent_early)
    with Cons.IH [OF Cons.prems(1,2) rest] show ?thesis by (simp add: run_events_Cons)
  next
    case False
    then have "due \<le> time_of e" by simp
    from armed_late [OF Cons.prems(1) this] Cons.prems(2)
    have h: "halted (deliver e r)" and c: "silence_stops (deliver e r) = Suc k" by simp_all
    from h c show ?thesis by (simp add: run_events_Cons halted_run)
  qed
qed

lemma silent_run_early:
  "armed r due \<Longrightarrow> list_all silent evs \<Longrightarrow> list_all (\<lambda>e. time_of e < due) evs \<Longrightarrow>
   run_events evs r = r"
proof (induction evs)
  case Nil
  show ?case by (simp add: run_events_def)
next
  case (Cons e evs)
  then have "deliver e r = r" by (simp add: armed_silent_early)
  with Cons show ?case by (simp add: run_events_Cons)
qed

lemma loud_block_cancels:
  assumes "armed r due" and "now < due" and "\<not> average d < 15"
  shows "listening (deliver (Audio now d) r)
         \<and> silence_stops (deliver (Audio now d) r) = silence_stops r"
  using assms
  by (auto simp: advance_not_due Let_def onaudioprocess_def armed_def listening_def
      clearTimeout_def split: option.splits)

lemma listening_idle: "listening r \<Longrightarrow> deliver (Idle now) r = r"
  by (simp add: listening_def advance_no_timer)

text \<open>
  Claim C7, for a recorder that listens with no timeout pending. A block whose average
  is below 15 arrives at time \<open>start\<close> and arms the timeout. If every block after it is
  below 15 as well, then once the time \<open>start + 3000\<close> has been reached the silence
  callback has run exactly once and the recording is torn down, and whatever arrives
  later does not make it run again. If instead the blocks stay below 15 until a block
  with an average of 15 or more arrives before \<open>start + 3000\<close>, the callback has not
  run, the recorder listens on with no timeout pending, and no passing of time makes
  the cancelled timeout fire. (A timeout that is due runs before the next event is
  handled; a disconnected processor delivers no further block.)
\<close>

theorem silence_timeout_fires_once_or_is_cancelled:
  assumes "listening r" and "average quiet < 15" and "list_all silent evs"
  shows "(start + 3000 \<le> finish \<longrightarrow>
            halted (run_events (Audio start quiet # evs @ Idle finish # later) r)
            \<and> silence_stops (run_events (Audio start quiet # evs @ Idle finish # later) r)
                = Suc (silence_stops r))
       \<and> (list_all (\<lambda>e. time_of e < start + 3000) evs \<and> spike < start + 3000 \<and> \<not> average loud < 15 \<longrightarrow>
            listening (run_events (Audio start quiet # evs @ [Audio spike loud]) r)
            \<and> silence_stops (run_events (Audio start quiet # evs @ [Audio spike loud]) r) = silence_stops r
            \<and> (\<forall>u. deliver (Idle u) (run_events (Audio start quiet # evs @ [Audio spike loud]) r)
                     = run_events (Audio start quiet # evs @ [Audio spike loud]) r))"
proof -
  define r1 where "r1 = deliver (Audio start quiet) r"
  from first_silent_block [OF assms(1,2), of start]
  have a1: "armed r1 (start + 3000)" and k1: "silence_stops r1 = silence_stops r"
    by (simp_all add: r1_def)
  have A: "halted (run_events (Audio start quiet # evs @ Idle finish # later) r)
           \<and> silence_stops (run_events (Audio start quiet # evs @ Idle finish # later) r)
                = Suc (silence_stops r)" if finish: "start + 3000 \<le> finish"
  proof -
    define r2 where "r2 = run_events evs r1"
    have run: "run_events (Audio start quiet # evs @ Idle finish # later) r
               = run_events later (deliver (Idle finish) r2)"
      by (simp add: run_events_Cons run_events_append r1_def r2_def)
    from silent_run [OF assms(3) a1 k1]
    consider "armed r2 (start + 3000)" "silence_stops r2 = silence_stops r"
      | "halted r2" "silence_stops r2 = Suc (silence_stops r)"
      by (auto simp: r2_def)
    then have "halted (deliver (Idle finish) r2)
               \<and> silence_stops (deliver (Idle finish) r2) = Suc (silence_stops r)"
    proof cases
      case 1
      from armed_late [OF 1(1), of "Idle finish"] finish 1(2) show ?thesis by simp
    next
      case 2
      from halted_stays [OF 2(1), of "Idle finish"] have "deliver (Idle finish) r2 = r2" .
      with 2 show ?thesis by (simp only: simp_thms)
    qed
    then show ?thesis by (simp add: run halted_run)
  qed
  have B: "listening (run_events (Audio start quiet # evs @ [Audio spike loud]) r)
            \<and> silence_stops (run_events (Audio start quiet # evs @ [Audio spike loud]) r) = silence_stops r
            \<and> (\<forall>u. deliver (Idle u) (run_events (Audio start quiet # evs @ [Audio spike loud]) r)
                     = run_events (Audio start quiet # evs @ [Audio spike loud]) r)"
    if early: "list_all (\<lambda>e. time_of e < start + 3000) evs" and spike: "spike < start + 3000"
      and loud: "\<not> average loud < 15"
  proof -
    have "run_events (Audio start quiet # evs @ [Audio spike loud]) r
            = run_events [Audio spike loud] (run_events evs r1)"
      by (simp only: run_events_Cons run_events_append r1_def)
    also have "\<dots> = run_events [Audio spike loud] r1"
      by (simp only: silent_run_early [OF a1 assms(3) early])
    also have "\<dots> = deliver (Audio spike loud) r1"
      by (simp only: run_events_Cons run_events_Nil)
    finally have run:
      "run_events (Audio start quiet # evs @ [Audio spike loud]) r = deliver (Audio spike loud) r1" .
    from loud_block_cancels [OF a1 spike loud] k1
    have l: "listening (deliver (Audio spike loud) r1)"
      and k: "silence_stops (deliver (Audio spike loud) r1) = silence_stops r"
      by simp_all
    from l k listening_idle [OF l] show ?thesis by (simp only: run) simp
  qed
  from A B show ?thesis by blast
qed


text \<open>
  The theorem on a recording started with the handles 4 to 8: silent blocks at
  500, 1500 and 2500 ms, then either nothing until 3500 ms (one stop, also after the
  later events), or a loud block at 3000 ms (no stop, ever).
\<close>

theorem silence_timeout_fires_once_or_is_cancelled_witness:
  "listening (started 4 5 6 7 8)
   \<and> average (replicate 128 0) < 15
   \<and> list_all silent [Audio 1500 (replicate 128 2), Audio 2500 (replicate 128 0)]
   \<and> (500::nat) + 3000 \<le> 3500
   \<and> halted (run_events
         [Audio 500 (replicate 128 0), Audio 1500 (replicate 128 2),
          Audio 2500 (replicate 128 0), Idle 3500, Audio 4000 (replicate 128 0), Idle 9000]
         (started 4 5 6 7 8))
   \<and> silence_stops (run_events
         [Audio 500 (replicate 128 0), Audio 1500 (replicate 128 2),
          Audio 2500 (replicate 128 0), Idle 3500, Audio 4000 (replicate 128 0), Idle 9000]
         (started 4 5 6 7 8)) = 1
   \<and> list_all (\<lambda>e. time_of e < 500 + 3000)
         [Audio 1500 (replicate 128 2), Audio 2500 (replicate 128 0)]
   \<and> (3000::nat) < 500 + 3000
   \<and> \<not> average (replicate 128 60) < 15
   \<and> listening (run_events
         [Audio 500 (replicate 128 0), Audio 1500 (replicate 128 2),
          Audio 2500 (replicate 128 0), Audio 3000 (replicate 128 60)] (started 4 5 6 7 8))
   \<and> silence_stops (run_events
         [Audio 500 (replicate 128 0), Audio 1500 (replicate 128 2),
          Audio 2500 (replicate 128 0), Audio 3000 (replicate 128 60)] (started 4 5 6 7 8)) = 0
   \<and> (\<forall>u. deliver (Idle u) (run_events
         [Audio 500 (replicate 128 0), Audio 1500 (replicate 128 2),
          Audio 2500 (replicate 128 0), Audio 3000 (replicate 128 60)] (started 4 5 6 7 8))
        = run_events
         [Audio 500 (replicate 128 0), Audio 1500 (replicate 128 2),
          Audio 2500 (replicate 128 0), Audio 3000 (replicate 128 60)] (started 4 5 6 7 8))"
proof -
  have h1: "listening (started 4 5 6 7 8)"
    by (simp add: listening_def started_def)
  have h2: "average (replicate 128 0) < 15"
    by (simp add: average_def bufferLength_def sum_list_replicate)
  have h3: "list_all silent [Audio 1500 (replicate 128 2), Audio 2500 (replicate 128 0)]"
    by (simp add: average_def bufferLength_def sum_list_replicate)
  have h4: "list_all (\<lambda>e. time_of e < 500 + 3000)
              [Audio 1500 (replicate 128 2), Audio 2500 (replicate 128 0)]"
    by simp
  have h5: "\<not> average (replicate 128 60) < 15"
    by (simp add: average_def bufferLength_def sum_list_replicate)
  have s0: "silence_stops (started 4 5 6 7 8) = 0"
    by (simp add: started_def)
  note both = silence_timeout_fires_once_or_is_cancelled [OF h1 h2 h3,
      where start = 500 and finish = 3500
        and later = "[Audio 4000 (replicate 128 0), Idle 9000]"
        and spike = 3000 and loud = "replicate 128 60"]
  from both have A: "halted (run_events
         [Audio 500 (replicate 128 0), Audio 1500 (replicate 128 2),
          Audio 2500 (replicate 128 0), Idle 3500, Audio 4000 (replicate 128 0), Idle 9000]
         (started 4 5 6 7 8))
     \<and> silence_stops (run_events
         [Audio 500 (replicate 128 0), Audio 1500 (replicate 128 2),
          Audio 2500 (replicate 128 0), Idle 3500, Audio 4000 (replicate 128 0), Idle 9000]
         (started 4 5 6 7 8)) = 1"
    by (simp add: s0)
  from both h4 h5 have B: "listening (run_events
         [Audio 500 (replicate 128 0), Audio 1500 (replicate 128 2),
          Audio 2500 (replicate 128 0), Audio 3000 (replicate 128 60)] (started 4 5 6 7 8))
   \<and> silence_stops (run_events
         [Audio 500 (replicate 128 0), Audio 1500 (replicate 128 2),
          Audio 2500 (replicate 128 0), Audio 3000 (replicate 128 60)] (started 4 5 6 7 8)) = 0
   \<and> (\<forall>u. deliver (Idle u) (run_events
         [Audio 500 (replicate 128 0), Audio 1500 (replicate 128 2),
          Audio 2500 (replicate 128 0), Audio 3000 (replicate 128 60)] (started 4 5 6 7 8))
        = run_events
         [Audio 500 (replicate 128 0), Audio 1500 (replicate 128 2),
          Audio 2500 (replicate 128 0), Audio 3000 (replicate 128 60)] (started 4 5 6 7 8))"
    by (simp add: s0)
  have t: "(500::nat) + 3000 \<le> 3500" "(3000::nat) < 500 + 3000" by simp_all
  from h1 h2 h3 h4 h5 t A B show ?thesis by blast
qed

end
